theory Spec2Isabelle
  imports Complex_Main "HOL-Library.Sublist"
begin

section \<open>JavaScript values\<close>

text \<open>
  The engine of \<^verbatim>\<open>engine.js\<close> works on values parsed from JSON (the ruleset) and on the
  record built from the form (the input). A number is an IEEE double; the engine only
  compares numbers and never computes with them, so a finite double is modelled by its
  exact rational value (\<open>+0\<close> and \<open>-0\<close>, which no operation used here tells apart, are
  both \<open>Fin 0\<close>).
\<close>

datatype jnum = NaN | NegInf | Fin rat | PosInf

datatype json =
    JNull
  | JBool bool
  | JNum jnum
  | JStr string
  | JArr "json list"
  | JObj "(string \<times> json) list"

text \<open>
  A \<open>json option\<close> is a value that may be \<^verbatim>\<open>undefined\<close> (\<open>None\<close>): JSON has no
  \<^verbatim>\<open>undefined\<close>, which arises only from reading a property that is not there.
  An object is the list of its own properties in insertion order; a JavaScript object has
  each key once, and the first entry of a key is the one read.
  Strings are byte strings: a character outside ASCII is several bytes, none of them an
  ASCII byte.
\<close>

datatype error = TypeError

text \<open>
  Two algorithms of the ECMAScript runtime are taken as parameters, since they round
  decimal text to doubles and back: \<^verbatim>\<open>Number::toString\<close> and \<^verbatim>\<open>StringToNumber\<close>.
\<close>

record runtime =
  number_to_string :: "jnum \<Rightarrow> string"
  string_to_number :: "string \<Rightarrow> jnum"

subsection \<open>Comparison\<close>

text \<open>\<^verbatim>\<open>a >= b\<close> and \<^verbatim>\<open>a < b\<close> on numbers: false as soon as one side is NaN.\<close>

fun js_ge :: "jnum \<Rightarrow> jnum \<Rightarrow> bool" where
  "js_ge NaN _ = False"
| "js_ge _ NaN = False"
| "js_ge _ NegInf = True"
| "js_ge PosInf _ = True"
| "js_ge NegInf _ = False"
| "js_ge (Fin a) (Fin b) = (b \<le> a)"
| "js_ge (Fin a) PosInf = False"

fun js_lt :: "jnum \<Rightarrow> jnum \<Rightarrow> bool" where
  "js_lt NaN _ = False"
| "js_lt _ NaN = False"
| "js_lt a b = (\<not> js_ge a b)"

text \<open>\<^verbatim>\<open>a === b\<close> on numbers: NaN equals nothing.\<close>

definition num_eq :: "jnum \<Rightarrow> jnum \<Rightarrow> bool" where
  "num_eq a b = (a \<noteq> NaN \<and> a = b)"

text \<open>
  \<^verbatim>\<open>a === b\<close> where \<open>a\<close> was read from the context and \<open>b\<close> is an operand of the ruleset.
  Arrays and objects are equal only to themselves, and the context shares no array or
  object with a rule's condition, so a comparison with one is false.
\<close>

fun strict_eq :: "json option \<Rightarrow> json \<Rightarrow> bool" where
  "strict_eq (Some JNull) JNull = True"
| "strict_eq (Some (JBool a)) (JBool b) = (a = b)"
| "strict_eq (Some (JNum a)) (JNum b) = num_eq a b"
| "strict_eq (Some (JStr a)) (JStr b) = (a = b)"
| "strict_eq _ _ = False"

text \<open>\<^verbatim>\<open>SameValueZero\<close>, the equality of \<^verbatim>\<open>Array.prototype.includes\<close>: as \<^verbatim>\<open>===\<close>, but NaN equals NaN.\<close>

fun same_value_zero :: "json option \<Rightarrow> json \<Rightarrow> bool" where
  "same_value_zero (Some (JNum a)) (JNum b) = (a = b)"
| "same_value_zero a b = strict_eq a b"

definition js_includes :: "json list \<Rightarrow> json option \<Rightarrow> bool" where
  "js_includes xs v = list_ex (\<lambda>x. same_value_zero v x) xs"

text \<open>Truthiness, as \<^verbatim>\<open>if (v)\<close>, \<^verbatim>\<open>v || d\<close> and \<^verbatim>\<open>v ? a : b\<close> read it.\<close>

fun truthy :: "json option \<Rightarrow> bool" where
  "truthy None = False"
| "truthy (Some JNull) = False"
| "truthy (Some (JBool b)) = b"
| "truthy (Some (JNum n)) = (n \<noteq> NaN \<and> n \<noteq> Fin 0)"
| "truthy (Some (JStr s)) = (s \<noteq> [])"
| "truthy (Some (JArr _)) = True"
| "truthy (Some (JObj _)) = True"

subsection \<open>Conversion to string and to number\<close>

fun join_comma :: "string list \<Rightarrow> string" where
  "join_comma [] = []"
| "join_comma [s] = s"
| "join_comma (s # t # ss) = s @ '','' @ join_comma (t # ss)"

text \<open>
  \<^verbatim>\<open>String(v)\<close>. An array is the join of its elements, where \<^verbatim>\<open>null\<close> is the empty
  string.
\<close>

fun js_String :: "runtime \<Rightarrow> json \<Rightarrow> string" where
  "js_String rt JNull = ''null''"
| "js_String rt (JBool b) = (if b then ''true'' else ''false'')"
| "js_String rt (JNum n) = number_to_string rt n"
| "js_String rt (JStr s) = s"
| "js_String rt (JArr xs) =
     join_comma (map (\<lambda>x. if x = JNull then [] else js_String rt x) xs)"
| "js_String rt (JObj kvs) = ''[object Object]''"

definition js_String_opt :: "runtime \<Rightarrow> json option \<Rightarrow> string" where
  "js_String_opt rt v = (case v of None \<Rightarrow> ''undefined'' | Some x \<Rightarrow> js_String rt x)"

text \<open>\<^verbatim>\<open>ToNumber(v)\<close>, which \<^verbatim>\<open>>=\<close> applies to an operand that is not a number.\<close>

fun js_ToNumber :: "runtime \<Rightarrow> json \<Rightarrow> jnum" where
  "js_ToNumber rt JNull = Fin 0"
| "js_ToNumber rt (JBool b) = (if b then Fin 1 else Fin 0)"
| "js_ToNumber rt (JNum n) = n"
| "js_ToNumber rt (JStr s) = string_to_number rt s"
| "js_ToNumber rt v = string_to_number rt (js_String rt v)"

subsection \<open>Reading a property\<close>

fun digit_char :: "nat \<Rightarrow> char" where
  "digit_char n = char_of (48 + n)"

fun dec_string :: "nat \<Rightarrow> string" where
  "dec_string n = (if n < 10 then [digit_char n] else dec_string (n div 10) @ [digit_char (n mod 10)])"

text \<open>
  \<^verbatim>\<open>v[p]\<close> for a value that is neither \<^verbatim>\<open>null\<close> nor \<^verbatim>\<open>undefined\<close>: an own property of an
  object, an element or the length of an array, a character or the length of a string.
  Properties inherited from the built-in prototypes (methods such as \<^verbatim>\<open>toString\<close>) are not
  JSON values and are not modelled: such a name reads as \<^verbatim>\<open>undefined\<close>.
\<close>

definition index_of :: "string \<Rightarrow> nat \<Rightarrow> nat option" where
  "index_of p n = find (\<lambda>i. dec_string i = p) [0..<n]"

fun getProp :: "json \<Rightarrow> string \<Rightarrow> json option" where
  "getProp (JObj kvs) p = map_of kvs p"
| "getProp (JArr xs) p =
     (if p = ''length'' then Some (JNum (Fin (of_nat (length xs))))
      else map_option (\<lambda>i. xs ! i) (index_of p (length xs)))"
| "getProp (JStr s) p =
     (if p = ''length'' then Some (JNum (Fin (of_nat (length s))))
      else map_option (\<lambda>i. JStr [s ! i]) (index_of p (length s)))"
| "getProp _ p = None"

text \<open>\<^verbatim>\<open>key in v\<close>: a TypeError unless \<open>v\<close> is an object or an array.\<close>

fun js_in :: "string \<Rightarrow> json \<Rightarrow> error + bool" where
  "js_in k (JObj kvs) = Inr (k \<in> set (map fst kvs))"
| "js_in k (JArr xs) = Inr (k = ''length'' \<or> index_of k (length xs) \<noteq> None)"
| "js_in k _ = Inl TypeError"

section \<open>Field resolution\<close>

fun split_dot :: "string \<Rightarrow> string list" where
  "split_dot [] = [[]]"
| "split_dot (c # cs) =
     (if c = CHR ''.'' then [] # split_dot cs
      else (case split_dot cs of [] \<Rightarrow> [[c]] | p # ps \<Rightarrow> (c # p) # ps))"

text \<open>The loop of \<^verbatim>\<open>getField\<close>: \<open>cur\<close> is the value reached, the list the segments left.\<close>

fun walk :: "json option \<Rightarrow> string list \<Rightarrow> json option" where
  "walk cur [] = cur"
| "walk cur (p # ps) =
     (case cur of
        None \<Rightarrow> None
      | Some JNull \<Rightarrow> None
      | Some v \<Rightarrow> walk (getProp v p) ps)"

definition getField :: "runtime \<Rightarrow> json \<Rightarrow> json option \<Rightarrow> json option" where
  "getField rt ctx path = walk (Some ctx) (split_dot (js_String_opt rt path))"

section \<open>Condition evaluation\<close>

text \<open>
  \<^verbatim>\<open>xs.every(f)\<close> and \<^verbatim>\<open>xs.some(f)\<close> for a callback that may raise: the callback runs
  on the elements in order, up to the first that decides the result or raises.
\<close>

fun every_e :: "('a \<Rightarrow> error + bool) \<Rightarrow> 'a list \<Rightarrow> error + bool" where
  "every_e f [] = Inr True"
| "every_e f (x # xs) =
     (case f x of Inl e \<Rightarrow> Inl e | Inr b \<Rightarrow> if b then every_e f xs else Inr False)"

fun some_e :: "('a \<Rightarrow> error + bool) \<Rightarrow> 'a list \<Rightarrow> error + bool" where
  "some_e f [] = Inr False"
| "some_e f (x # xs) =
     (case f x of Inl e \<Rightarrow> Inl e | Inr b \<Rightarrow> if b then Inr True else some_e f xs)"

lemma every_e_cong [fundef_cong]:
  "xs = ys \<Longrightarrow> (\<And>x. x \<in> set ys \<Longrightarrow> f x = g x) \<Longrightarrow> every_e f xs = every_e g ys"
  by (induction ys arbitrary: xs) (auto split: sum.splits)

lemma some_e_cong [fundef_cong]:
  "xs = ys \<Longrightarrow> (\<And>x. x \<in> set ys \<Longrightarrow> f x = g x) \<Longrightarrow> some_e f xs = some_e g ys"
  by (induction ys arbitrary: xs) (auto split: sum.splits)

text \<open>
  Lines 86 to 101 of \<^verbatim>\<open>evalCond\<close>, the leaf operators, for a condition \<open>c\<close> that is
  not \<^verbatim>\<open>null\<close> and has no truthy \<^verbatim>\<open>all\<close> or \<^verbatim>\<open>any\<close>. The first \<^verbatim>\<open>in\<close> test raises when
  \<open>c\<close> is a primitive; the later ones then cannot.
\<close>

definition op_exists :: "json option \<Rightarrow> bool" where
  "op_exists val =
     (val \<noteq> None \<and> val \<noteq> Some JNull \<and> \<not> (case val of Some (JArr xs) \<Rightarrow> length xs = 0 | _ \<Rightarrow> False))"

definition op_in :: "json option \<Rightarrow> json option \<Rightarrow> bool" where
  "op_in val operand = (case operand of Some (JArr xs) \<Rightarrow> js_includes xs val | _ \<Rightarrow> False)"

definition op_gte :: "runtime \<Rightarrow> json option \<Rightarrow> json option \<Rightarrow> bool" where
  "op_gte rt val operand =
     (case val of
        Some (JNum v) \<Rightarrow>
          js_ge v (case operand of None \<Rightarrow> NaN | Some g \<Rightarrow> js_ToNumber rt g)
      | _ \<Rightarrow> False)"

definition op_contains :: "json option \<Rightarrow> json option \<Rightarrow> bool" where
  "op_contains val operand =
     (case val of
        Some (JArr xs) \<Rightarrow>
          (case operand of None \<Rightarrow> False | Some x \<Rightarrow> list_ex (\<lambda>y. same_value_zero (Some y) x) xs)
      | _ \<Rightarrow> False)"

definition evalLeaf :: "runtime \<Rightarrow> json \<Rightarrow> json \<Rightarrow> error + bool" where
  "evalLeaf rt ctx c =
     (let val = getField rt ctx (getProp c ''field'') in
      case js_in ''exists'' c of
        Inl e \<Rightarrow> Inl e
      | Inr has_exists \<Rightarrow>
          if has_exists then
            Inr (if truthy (getProp c ''exists'') then op_exists val else \<not> op_exists val)
          else if js_in ''eq'' c = Inr True then
            Inr (case getProp c ''eq'' of None \<Rightarrow> val = None | Some x \<Rightarrow> strict_eq val x)
          else if js_in ''in'' c = Inr True then Inr (op_in val (getProp c ''in''))
          else if js_in ''gte'' c = Inr True then Inr (op_gte rt val (getProp c ''gte''))
          else if js_in ''contains'' c = Inr True then Inr (op_contains val (getProp c ''contains''))
          else Inr False)"

lemma index_of_lt: "index_of p n = Some i \<Longrightarrow> i < n"
  by (auto simp: index_of_def find_Some_iff)

lemma size_elem_lt: "x \<in> set xs \<Longrightarrow> size x < size (JArr xs)"
  by (induction xs) auto

lemma size_map_of_lt: "map_of kvs k = Some v \<Longrightarrow> size v < size (JObj kvs)"
  by (induction kvs) (auto split: if_splits)

lemma getProp_arr_size: "getProp c k = Some (JArr cs) \<Longrightarrow> size (JArr cs) < size c"
proof (cases c)
  case (JArr xs)
  assume "getProp c k = Some (JArr cs)"
  with JArr obtain i where "index_of k (length xs) = Some i" "xs ! i = JArr cs"
    by (auto split: if_splits)
  then have "JArr cs \<in> set xs" using index_of_lt nth_mem by metis
  then show ?thesis using JArr size_elem_lt by blast
next
  case (JObj kvs)
  assume "getProp c k = Some (JArr cs)"
  with JObj show ?thesis using size_map_of_lt[of kvs k "JArr cs"] by simp
qed (auto split: if_splits)

text \<open>
  \<^verbatim>\<open>evalCond(ctx, cond)\<close>; \<open>None\<close> is a condition that is \<^verbatim>\<open>undefined\<close> (a rule without
  \<^verbatim>\<open>when\<close>). \<^verbatim>\<open>cond.all.every\<close> is a function only when \<^verbatim>\<open>cond.all\<close> is an array: calling
  it on any other truthy value is a TypeError.
\<close>

function evalCond :: "runtime \<Rightarrow> json \<Rightarrow> json option \<Rightarrow> error + bool" where
  "evalCond rt ctx None = Inr True"
| "evalCond rt ctx (Some c) =
     (if c = JNull then Inr True
      else if truthy (getProp c ''all'') then
        (case getProp c ''all'' of
           Some (JArr cs) \<Rightarrow> every_e (\<lambda>x. evalCond rt ctx (Some x)) cs
         | _ \<Rightarrow> Inl TypeError)
      else if truthy (getProp c ''any'') then
        (case getProp c ''any'' of
           Some (JArr cs) \<Rightarrow> some_e (\<lambda>x. evalCond rt ctx (Some x)) cs
         | _ \<Rightarrow> Inl TypeError)
      else evalLeaf rt ctx c)"
  by pat_completeness auto
termination
proof (relation "measure (\<lambda>(rt, ctx, cond). case cond of None \<Rightarrow> 0 | Some c \<Rightarrow> size c)")
  fix rt :: runtime and ctx c :: json and x1 cs x
  assume "getProp c ''all'' = Some x1" "x1 = JArr cs" "x \<in> set cs"
  then show "((rt, ctx, Some x), (rt, ctx, Some c))
      \<in> measure (\<lambda>(rt, ctx, cond). case cond of None \<Rightarrow> 0 | Some c \<Rightarrow> size c)"
    using getProp_arr_size[of c "''all''" cs] size_elem_lt[of x cs] by simp
next
  fix rt :: runtime and ctx c :: json and x1 cs x
  assume "getProp c ''any'' = Some x1" "x1 = JArr cs" "x \<in> set cs"
  then show "((rt, ctx, Some x), (rt, ctx, Some c))
      \<in> measure (\<lambda>(rt, ctx, cond). case cond of None \<Rightarrow> 0 | Some c \<Rightarrow> size c)"
    using getProp_arr_size[of c "''any''" cs] size_elem_lt[of x cs] by simp
qed simp

declare evalCond.simps(2) [simp del]

section \<open>Derived facts\<close>

text \<open>
  The decimal literals of \<^verbatim>\<open>computeGpaBand\<close> denote doubles: \<^verbatim>\<open>3.50\<close> is exact, the
  other three are the doubles nearest to the decimal, given here by their exact value.
  A grade point average typed as \<^verbatim>\<open>3.8\<close> is read by \<^verbatim>\<open>parseFloat\<close> as the same double
  as the literal \<^verbatim>\<open>3.80\<close>.
\<close>

definition lit_3_80 :: rat where "lit_3_80 = 4278419646001971 / 1125899906842624"
definition lit_3_50 :: rat where "lit_3_50 = 7 / 2"
definition lit_3_20 :: rat where "lit_3_20 = 3602879701896397 / 1125899906842624"
definition lit_2_80 :: rat where "lit_2_80 = 3152519739159347 / 1125899906842624"

definition computeGpaBand :: "jnum \<Rightarrow> string" where
  "computeGpaBand gpa =
     (if js_ge gpa (Fin lit_3_80) then ''A''
      else if js_ge gpa (Fin lit_3_50) then ''B''
      else if js_ge gpa (Fin lit_3_20) then ''C''
      else if js_ge gpa (Fin lit_2_80) then ''D''
      else ''E'')"

definition computeTimeWindow :: "jnum \<Rightarrow> string option \<Rightarrow> string" where
  "computeTimeWindow gradeLevel monthBucket =
     (if num_eq gradeLevel (Fin 9) \<or> num_eq gradeLevel (Fin 10) then ''early''
      else if num_eq gradeLevel (Fin 11) then ''late''
      else if num_eq gradeLevel (Fin 12) then
        (if monthBucket = Some ''october_or_later'' then ''closed'' else ''final'')
      else ''early'')"

section \<open>The context\<close>

text \<open>
  The input is the record \<^verbatim>\<open>readInputs\<close> builds. \<open>None\<close> in a nullable field is \<^verbatim>\<open>null\<close>;
  the two lists that \<^verbatim>\<open>chooseSuccessTemplate\<close> reads through \<^verbatim>\<open>|| []\<close> may be absent.
\<close>

record input =
  grade_level :: jnum
  grade_month_bucket :: "string option"
  gpa_unweighted :: jnum
  gpa_trend :: string
  grade_concentration :: string
  major_bucket :: string
  systems_considered :: "string list option"
  willing_prioritize_gpa_over_rigor :: bool
  willing_summer_academics :: bool
  willing_reduce_ecs :: bool
  open_to_cc_pathways :: bool
  summer_travel_weeks :: "jnum option"
  campus_targets_uc :: "string list option"
  academic_anomaly_timing :: "string option"
  ec_leadership_recognition :: "string option"
  senior_course_signals :: "string list"

record derived =
  gpa_band :: string
  time_window :: string

text \<open>
  The state of \<^verbatim>\<open>initState\<close>. \<^verbatim>\<open>outputs.success_definition\<close> is an empty object that
  nothing writes; it appears in \<open>state_json\<close> below. \<^verbatim>\<open>suppress\<close> holds booleans only:
  its flags start \<^verbatim>\<open>false\<close> and the one write to it stores \<^verbatim>\<open>true\<close>.
\<close>

record outputs =
  locked :: "string list"
  viable :: "string list"
  actions :: "string list"
  stop :: "string list"
  "notes" :: "string list"

record state =
  outputs :: outputs
  suppress :: "(string \<times> bool) list"

record ctx =
  input :: input
  derived :: derived
  state :: state

definition initState :: state where
  "initState =
     \<lparr>outputs = \<lparr>locked = [], viable = [], actions = [], stop = [], notes = []\<rparr>,
      suppress = [(''cc'', False), (''ap'', False), (''middle_college'', False),
                  (''testing'', False), (''internships'', False),
                  (''extracurriculars'', False), (''essays'', False)]\<rparr>"

subsection \<open>The context as a value, for field resolution\<close>

definition str_opt_json :: "string option \<Rightarrow> json" where
  "str_opt_json v = (case v of None \<Rightarrow> JNull | Some s \<Rightarrow> JStr s)"

definition str_list_json :: "string list \<Rightarrow> json" where
  "str_list_json xs = JArr (map JStr xs)"

definition opt_field :: "string \<Rightarrow> string list option \<Rightarrow> (string \<times> json) list" where
  "opt_field k v = (case v of None \<Rightarrow> [] | Some xs \<Rightarrow> [(k, str_list_json xs)])"

definition input_json :: "input \<Rightarrow> json" where
  "input_json i = JObj (
     [(''grade_level'', JNum (grade_level i)),
      (''grade_month_bucket'', str_opt_json (grade_month_bucket i)),
      (''gpa_unweighted'', JNum (gpa_unweighted i)),
      (''gpa_trend'', JStr (gpa_trend i)),
      (''grade_concentration'', JStr (grade_concentration i)),
      (''major_bucket'', JStr (major_bucket i))]
     @ opt_field ''systems_considered'' (systems_considered i) @
     [(''willing_prioritize_gpa_over_rigor'', JBool (willing_prioritize_gpa_over_rigor i)),
      (''willing_summer_academics'', JBool (willing_summer_academics i)),
      (''willing_reduce_ecs'', JBool (willing_reduce_ecs i)),
      (''open_to_cc_pathways'', JBool (open_to_cc_pathways i)),
      (''summer_travel_weeks'',
         (case summer_travel_weeks i of None \<Rightarrow> JNull | Some n \<Rightarrow> JNum n))]
     @ opt_field ''campus_targets_uc'' (campus_targets_uc i) @
     [(''academic_anomaly_timing'', str_opt_json (academic_anomaly_timing i)),
      (''ec_leadership_recognition'', str_opt_json (ec_leadership_recognition i)),
      (''senior_course_signals'', str_list_json (senior_course_signals i))])"

definition derived_json :: "derived \<Rightarrow> json" where
  "derived_json d = JObj [(''gpa_band'', JStr (gpa_band d)), (''time_window'', JStr (time_window d))]"

definition state_json :: "state \<Rightarrow> json" where
  "state_json s = JObj
     [(''outputs'', JObj
         [(''locked'', str_list_json (locked (outputs s))),
          (''viable'', str_list_json (viable (outputs s))),
          (''actions'', str_list_json (actions (outputs s))),
          (''stop'', str_list_json (stop (outputs s))),
          (''success_definition'', JObj []),
          (''notes'', str_list_json (notes (outputs s)))]),
      (''suppress'', JObj (map (\<lambda>(k, v). (k, JBool v)) (suppress s)))]"

text \<open>The object \<^verbatim>\<open>{ input, derived, state: ctx.state }\<close> that \<^verbatim>\<open>runEngine\<close> hands to \<^verbatim>\<open>evalCond\<close>.\<close>

definition ctx_json :: "input \<Rightarrow> derived \<Rightarrow> state \<Rightarrow> json" where
  "ctx_json i d s =
     JObj [(''input'', input_json i), (''derived'', derived_json d), (''state'', state_json s)]"

section \<open>Accumulating effects\<close>

text \<open>
  \<^verbatim>\<open>uniqPush(arr, items)\<close>: the loop over \<open>items\<close>, the array returned instead of mutated.
  \<open>uniqPush_opt\<close> is the call with \<^verbatim>\<open>items || []\<close>.
\<close>

text \<open>\<^verbatim>\<open>v || []\<close> for a list that may be absent: an array, even an empty one, is truthy.\<close>

definition or_empty :: "string list option \<Rightarrow> string list" where
  "or_empty v = (case v of None \<Rightarrow> [] | Some xs \<Rightarrow> xs)"

fun uniqPush :: "string list \<Rightarrow> string list \<Rightarrow> string list" where
  "uniqPush arr [] = arr"
| "uniqPush arr (it # items) = uniqPush (if it \<in> set arr then arr else arr @ [it]) items"

definition uniqPush_opt :: "string list \<Rightarrow> string list option \<Rightarrow> string list" where
  "uniqPush_opt arr items = uniqPush arr (or_empty items)"

text \<open>\<^verbatim>\<open>state.suppress[k] = true\<close>: an existing key keeps its place, a new one is appended.\<close>

fun set_true :: "string \<Rightarrow> (string \<times> bool) list \<Rightarrow> (string \<times> bool) list" where
  "set_true k [] = [(k, True)]"
| "set_true k ((k', v) # rest) = (if k' = k then (k, True) # rest else (k', v) # set_true k rest)"

text \<open>The loop of \<^verbatim>\<open>applySuppress\<close> over the entries of the patch.\<close>

fun suppress_entries :: "(string \<times> bool) list \<Rightarrow> (string \<times> json) list \<Rightarrow> (string \<times> bool) list" where
  "suppress_entries flags [] = flags"
| "suppress_entries flags ((k, v) # es) =
     suppress_entries (if v = JBool True then set_true k flags else flags) es"

definition applySuppress :: "state \<Rightarrow> (string \<times> json) list option \<Rightarrow> state" where
  "applySuppress st suppressPatch =
     (case suppressPatch of
        None \<Rightarrow> st
      | Some es \<Rightarrow> st\<lparr>suppress := suppress_entries (suppress st) es\<rparr>)"

record effect =
  add_locked :: "string list option"
  add_viable :: "string list option"
  add_actions :: "string list option"
  add_stop :: "string list option"
  add_notes :: "string list option"
  set_suppress :: "(string \<times> json) list option"

text \<open>A rule; \<^verbatim>\<open>when\<close> and \<^verbatim>\<open>then\<close> are \<open>rule_when\<close> and \<open>rule_then\<close>, and either may be absent.\<close>

record rule =
  stage :: string
  rule_when :: "json option"
  rule_then :: "effect option"

definition empty_effect :: effect where
  "empty_effect = \<lparr>add_locked = None, add_viable = None, add_actions = None,
                    add_stop = None, add_notes = None, set_suppress = None\<rparr>"

text \<open>\<^verbatim>\<open>rule.then || {}\<close>\<close>

definition then_or_empty :: "rule \<Rightarrow> effect" where
  "then_or_empty r = (case rule_then r of None \<Rightarrow> empty_effect | Some e \<Rightarrow> e)"

definition applyThen :: "state \<Rightarrow> rule \<Rightarrow> state" where
  "applyThen st r =
     (let t = then_or_empty r;
          out = outputs st;
          out' = \<lparr>locked = uniqPush_opt (locked out) (add_locked t),
                  viable = uniqPush_opt (viable out) (add_viable t),
                  actions = uniqPush_opt (actions out) (add_actions t),
                  stop = uniqPush_opt (stop out) (add_stop t),
                  notes = uniqPush_opt (notes out) (add_notes t)\<rparr>
      in applySuppress (st\<lparr>outputs := out'\<rparr>) (set_suppress t))"

section \<open>The engine\<close>

record output_constraints =
  max_locked :: "jnum option"
  max_viable :: "jnum option"
  max_actions :: "jnum option"
  max_stop :: "jnum option"

record ruleset =
  engine_version :: "string option"
  execution_order :: "string list option"
  rules :: "rule list"
  output_constraints :: output_constraints
  success_templates :: "(string \<times> string) list option"

text \<open>
  One pass of the inner loop body of \<^verbatim>\<open>runEngine\<close>: the condition is evaluated on the
  current state and the effect applied at once. A TypeError raised by \<^verbatim>\<open>evalCond\<close>
  leaves \<^verbatim>\<open>runEngine\<close>, which has no handler.
\<close>

definition fire :: "runtime \<Rightarrow> input \<Rightarrow> derived \<Rightarrow> state \<Rightarrow> rule \<Rightarrow> error + state" where
  "fire rt i d st r =
     (case evalCond rt (ctx_json i d st) (rule_when r) of
        Inl e \<Rightarrow> Inl e
      | Inr b \<Rightarrow> Inr (if b then applyThen st r else st))"

fun run_rules :: "runtime \<Rightarrow> input \<Rightarrow> derived \<Rightarrow> state \<Rightarrow> rule list \<Rightarrow> error + state" where
  "run_rules rt i d st [] = Inr st"
| "run_rules rt i d st (r # rs) =
     (case fire rt i d st r of Inl e \<Rightarrow> Inl e | Inr st' \<Rightarrow> run_rules rt i d st' rs)"

fun run_stages ::
  "runtime \<Rightarrow> rule list \<Rightarrow> input \<Rightarrow> derived \<Rightarrow> state \<Rightarrow> string list \<Rightarrow> error + state" where
  "run_stages rt all_rules i d st [] = Inr st"
| "run_stages rt all_rules i d st (s # stages) =
     (case run_rules rt i d st (filter (\<lambda>r. stage r = s) all_rules) of
        Inl e \<Rightarrow> Inl e
      | Inr st' \<Rightarrow> run_stages rt all_rules i d st' stages)"

definition runEngine :: "runtime \<Rightarrow> ruleset \<Rightarrow> input \<Rightarrow> error + ctx" where
  "runEngine rt RULESET i =
     (let d = \<lparr>gpa_band = computeGpaBand (gpa_unweighted i),
               time_window = computeTimeWindow (grade_level i) (grade_month_bucket i)\<rparr>;
          stages = or_empty (execution_order RULESET)
      in case run_stages rt (rules RULESET) i d initState stages of
           Inl e \<Rightarrow> Inl e
         | Inr st \<Rightarrow> Inr \<lparr>input = i, derived = d, state = st\<rparr>)"

section \<open>The success template\<close>

definition chooseSuccessTemplate :: "ctx \<Rightarrow> string" where
  "chooseSuccessTemplate c =
     (if time_window (derived c) = ''closed'' then ''closed_window''
      else
        let band = gpa_band (derived c);
            systems = or_empty (systems_considered (input c));
            campuses = or_empty (campus_targets_uc (input c));
            ccStructurallyPrimary = (band = ''C'' \<or> band = ''D'' \<or> band = ''E'');
            ccConsidered = (''cc_transfer'' \<in> set systems)
        in if ccStructurallyPrimary then
             (if ccConsidered then ''cc_to_uc'' else ''cc_transfer_refused'')
           else if ''uc'' \<in> set systems then
             (if ''UCM'' \<in> set campuses then ''access_uc''
              else if list_ex (\<lambda>x. x \<in> set campuses) [''UCR'', ''UCSC'', ''UCSD'', ''UCLA'']
                then ''floor_guarded_uc''
              else if time_window (derived c) = ''early'' then ''mid_uc_early''
              else ''mid_uc_late'')
           else ''csu'')"

section \<open>Output shaping\<close>

text \<open>\<^verbatim>\<open>v || d\<close> for an entry of \<^verbatim>\<open>output_constraints\<close>: zero and NaN are falsy.\<close>

definition num_or :: "jnum option \<Rightarrow> jnum \<Rightarrow> jnum" where
  "num_or v d = (case v of None \<Rightarrow> d | Some n \<Rightarrow> if truthy (Some (JNum n)) then n else d)"

text \<open>
  \<^verbatim>\<open>arr.slice(0, maxN)\<close>: \<open>maxN\<close> is truncated towards zero, NaN counting as zero; a
  negative end counts from the end of the array.
\<close>

definition to_integer :: "rat \<Rightarrow> int" where
  "to_integer r = (if 0 \<le> r then \<lfloor>r\<rfloor> else \<lceil>r\<rceil>)"

definition enforceConstraints :: "'a list \<Rightarrow> jnum \<Rightarrow> 'a list" where
  "enforceConstraints arr maxN =
     (case maxN of
        NaN \<Rightarrow> []
      | NegInf \<Rightarrow> []
      | PosInf \<Rightarrow> arr
      | Fin r \<Rightarrow>
          (let n = to_integer r
           in if n < 0 then take (nat (int (length arr) + n)) arr else take (nat n) arr))"

text \<open>\<^verbatim>\<open>toLowerCase\<close> on the ASCII letters; no other character lowers to an ASCII letter
  next to which the keywords below could match.\<close>

definition lower_char :: "char \<Rightarrow> char" where
  "lower_char c =
     (case map_of (zip ''ABCDEFGHIJKLMNOPQRSTUVWXYZ'' ''abcdefghijklmnopqrstuvwxyz'') c of
        None \<Rightarrow> c
      | Some l \<Rightarrow> l)"

definition toLowerCase :: "string \<Rightarrow> string" where
  "toLowerCase s = map lower_char s"

text \<open>\<^verbatim>\<open>s.includes(kw)\<close> on strings: \<open>kw\<close> occurs in \<open>s\<close> as a contiguous run.\<close>

fun str_includes :: "string \<Rightarrow> string \<Rightarrow> bool" where
  "str_includes [] kw = (kw = [])"
| "str_includes (c # cs) kw = (prefix kw (c # cs) \<or> str_includes cs kw)"

definition suppressedKeys :: "state \<Rightarrow> string list" where
  "suppressedKeys st = map fst (filter (\<lambda>(k, v). v = True) (suppress st))"

definition filterSuppressed :: "string list \<Rightarrow> string \<Rightarrow> bool" where
  "filterSuppressed keys line =
     (let s = toLowerCase line in
      if ''testing'' \<in> set keys \<and> str_includes s ''test'' then False
      else if ''cc'' \<in> set keys \<and> str_includes s ''cc'' then False
      else if ''ap'' \<in> set keys \<and> (str_includes s ''ap'' \<or> str_includes s ''honors'') then False
      else if ''internships'' \<in> set keys \<and> str_includes s ''intern'' then False
      else if ''extracurriculars'' \<in> set keys \<and> (str_includes s ''ec'' \<or> str_includes s ''club'')
        then False
      else if ''middle_college'' \<in> set keys \<and> str_includes s ''middle college'' then False
      else True)"

text \<open>\<^verbatim>\<open>Array.from(new Set(xs))\<close>: a set keeps the first insertion of each value.\<close>

definition array_from_set :: "string list \<Rightarrow> string list" where
  "array_from_set xs = fold (\<lambda>x acc. if x \<in> set acc then acc else acc @ [x]) xs []"

definition fallback_text :: string where
  "fallback_text = ''Define success based on the primary viable pathway.''"

definition successText :: "ruleset \<Rightarrow> string \<Rightarrow> string" where
  "successText RULESET templateKey =
     (case success_templates RULESET of
        None \<Rightarrow> fallback_text
      | Some m \<Rightarrow>
          (case map_of m templateKey of
             None \<Rightarrow> fallback_text
           | Some t \<Rightarrow> if t \<noteq> [] then t else fallback_text))"

text \<open>
  What \<^verbatim>\<open>renderOutput\<close> writes to the page: the text of the two pills and of the success
  box, and for each list element the items handed to \<^verbatim>\<open>renderList\<close>, which shows them one
  per line, or a placeholder line when there is none.
\<close>

record presentation =
  pill_gpa_band :: string
  pill_time_window :: string
  locked_list :: "string list"
  viable_list :: "string list"
  actions_list :: "string list"
  stop_list :: "string list"
  success_box :: string
  notes_list :: "string list"

definition renderOutput :: "ruleset \<Rightarrow> ctx \<Rightarrow> presentation" where
  "renderOutput RULESET c =
     (let out = outputs (state c);
          oc = output_constraints RULESET;
          locked' = enforceConstraints (locked out) (num_or (max_locked oc) (Fin 7));
          viable' = enforceConstraints (viable out) (num_or (max_viable oc) (Fin 6));
          actions0 = actions out;
          stop' = stop out;
          keys = suppressedKeys (state c);
          actions1 = filter (filterSuppressed keys) actions0;
          actions2 = enforceConstraints actions1 (num_or (max_actions oc) (Fin 5));
          stopC = enforceConstraints stop' (num_or (max_stop oc) (Fin 5));
          templateKey = chooseSuccessTemplate c;
          notes' = enforceConstraints (array_from_set (notes out)) (Fin 8)
      in \<lparr>pill_gpa_band = ''GPA band: '' @ gpa_band (derived c),
          pill_time_window = ''Time window: '' @ time_window (derived c),
          locked_list = locked',
          viable_list = viable',
          actions_list = actions2,
          stop_list = stop',
          success_box = successText RULESET templateKey,
          notes_list = notes'\<rparr>)"

section \<open>Properties of the derived facts and of the success template\<close>

lemma num_eq_Fin: "num_eq g (Fin r) = (g = Fin r)"
  by (auto simp: num_eq_def)

lemma lit_order: "lit_2_80 < lit_3_20" "lit_3_20 < lit_3_50" "lit_3_50 < lit_3_80"
  by (simp_all add: lit_2_80_def lit_3_20_def lit_3_50_def lit_3_80_def)

lemma js_ge_Fin_mono: "js_ge g (Fin b) \<Longrightarrow> a \<le> b \<Longrightarrow> js_ge g (Fin a)"
  by (cases g) auto

lemma js_lt_Fin: "js_lt g (Fin b) = (g \<noteq> NaN \<and> \<not> js_ge g (Fin b))"
  by (cases g) auto

text \<open>
  C7. The band of a grade point average is A from 3.80 up, B from 3.50 up to 3.80, C from
  3.20 up to 3.50, D from 2.80 up to 3.20 and E otherwise (also for NaN, which no
  comparison accepts); the bounds are the doubles the literals denote. The time window is
  early for grade 9 or 10, late for grade 11, closed or final for grade 12 as the month
  bucket is \<^verbatim>\<open>october_or_later\<close> or not, and early for any other grade.
  The first five lines read the comparisons as JavaScript does, the next five as the
  order of the rationals for a finite average.
\<close>

theorem derived_fact_tables:
  "(computeGpaBand gpa = ''A'') = js_ge gpa (Fin lit_3_80)
   \<and> (computeGpaBand gpa = ''B'') = (js_ge gpa (Fin lit_3_50) \<and> js_lt gpa (Fin lit_3_80))
   \<and> (computeGpaBand gpa = ''C'') = (js_ge gpa (Fin lit_3_20) \<and> js_lt gpa (Fin lit_3_50))
   \<and> (computeGpaBand gpa = ''D'') = (js_ge gpa (Fin lit_2_80) \<and> js_lt gpa (Fin lit_3_20))
   \<and> (computeGpaBand gpa = ''E'') = (\<not> js_ge gpa (Fin lit_2_80))
   \<and> (computeGpaBand (Fin g) = ''A'') = (lit_3_80 \<le> g)
   \<and> (computeGpaBand (Fin g) = ''B'') = (lit_3_50 \<le> g \<and> g < lit_3_80)
   \<and> (computeGpaBand (Fin g) = ''C'') = (lit_3_20 \<le> g \<and> g < lit_3_50)
   \<and> (computeGpaBand (Fin g) = ''D'') = (lit_2_80 \<le> g \<and> g < lit_3_20)
   \<and> (computeGpaBand (Fin g) = ''E'') = (g < lit_2_80)
   \<and> computeTimeWindow grade month =
       (if grade = Fin 9 \<or> grade = Fin 10 then ''early''
        else if grade = Fin 11 then ''late''
        else if grade = Fin 12 then
          (if month = Some ''october_or_later'' then ''closed'' else ''final'')
        else ''early'')"
proof -
  have ge: "js_ge gpa (Fin lit_3_80) \<Longrightarrow> js_ge gpa (Fin lit_3_50)"
       "js_ge gpa (Fin lit_3_50) \<Longrightarrow> js_ge gpa (Fin lit_3_20)"
       "js_ge gpa (Fin lit_3_20) \<Longrightarrow> js_ge gpa (Fin lit_2_80)"
    using lit_order by (auto elim: js_ge_Fin_mono)
  have nan: "js_ge gpa (Fin x) \<Longrightarrow> gpa \<noteq> NaN" for x
    by (cases gpa) auto
  have general: "(computeGpaBand gpa = ''A'') = js_ge gpa (Fin lit_3_80)"
    "(computeGpaBand gpa = ''B'') = (js_ge gpa (Fin lit_3_50) \<and> js_lt gpa (Fin lit_3_80))"
    "(computeGpaBand gpa = ''C'') = (js_ge gpa (Fin lit_3_20) \<and> js_lt gpa (Fin lit_3_50))"
    "(computeGpaBand gpa = ''D'') = (js_ge gpa (Fin lit_2_80) \<and> js_lt gpa (Fin lit_3_20))"
    "(computeGpaBand gpa = ''E'') = (\<not> js_ge gpa (Fin lit_2_80))"
    using ge nan by (auto simp: computeGpaBand_def js_lt_Fin)
  have finite: "(computeGpaBand (Fin g) = ''A'') = (lit_3_80 \<le> g)"
    "(computeGpaBand (Fin g) = ''B'') = (lit_3_50 \<le> g \<and> g < lit_3_80)"
    "(computeGpaBand (Fin g) = ''C'') = (lit_3_20 \<le> g \<and> g < lit_3_50)"
    "(computeGpaBand (Fin g) = ''D'') = (lit_2_80 \<le> g \<and> g < lit_3_20)"
    "(computeGpaBand (Fin g) = ''E'') = (g < lit_2_80)"
    using lit_order by (auto simp: computeGpaBand_def)
  have window: "computeTimeWindow grade month =
       (if grade = Fin 9 \<or> grade = Fin 10 then ''early''
        else if grade = Fin 11 then ''late''
        else if grade = Fin 12 then
          (if month = Some ''october_or_later'' then ''closed'' else ''final'')
        else ''early'')"
    by (simp add: computeTimeWindow_def num_eq_Fin)
  from general finite window show ?thesis by blast
qed

text \<open>
  The averages 3.80, 3.79, 3.50, 3.49, 3.20, 3.19, 2.80 and 2.79, each as the double
  \<^verbatim>\<open>parseFloat\<close> reads, and the grades 9 to 13.
\<close>

theorem derived_fact_tables_witness:
  "computeGpaBand (Fin (4278419646001971 / 1125899906842624)) = ''A''
   \<and> computeGpaBand (Fin (4267160646933545 / 1125899906842624)) = ''B''
   \<and> computeGpaBand (Fin (7 / 2)) = ''B''
   \<and> computeGpaBand (Fin (1964695337440379 / 562949953421312)) = ''C''
   \<and> computeGpaBand (Fin (3602879701896397 / 1125899906842624)) = ''C''
   \<and> computeGpaBand (Fin (7183241405655941 / 2251799813685248)) = ''D''
   \<and> computeGpaBand (Fin (3152519739159347 / 1125899906842624)) = ''D''
   \<and> computeGpaBand (Fin (3141260740090921 / 1125899906842624)) = ''E''
   \<and> computeGpaBand NaN = ''E''
   \<and> computeTimeWindow (Fin 9) None = ''early''
   \<and> computeTimeWindow (Fin 10) None = ''early''
   \<and> computeTimeWindow (Fin 11) None = ''late''
   \<and> computeTimeWindow (Fin 12) (Some ''october_or_later'') = ''closed''
   \<and> computeTimeWindow (Fin 12) (Some ''september'') = ''final''
   \<and> computeTimeWindow (Fin 13) None = ''early''
   \<and> computeTimeWindow NaN None = ''early''"
  using derived_fact_tables [of gpa "4278419646001971 / 1125899906842624" grade month for gpa grade month]
    derived_fact_tables [of gpa "4267160646933545 / 1125899906842624" grade month for gpa grade month]
    derived_fact_tables [of gpa "7 / 2" grade month for gpa grade month]
    derived_fact_tables [of gpa "1964695337440379 / 562949953421312" grade month for gpa grade month]
    derived_fact_tables [of gpa "3602879701896397 / 1125899906842624" grade month for gpa grade month]
    derived_fact_tables [of gpa "7183241405655941 / 2251799813685248" grade month for gpa grade month]
    derived_fact_tables [of gpa "3152519739159347 / 1125899906842624" grade month for gpa grade month]
    derived_fact_tables [of NaN "3141260740090921 / 1125899906842624" grade month for grade month]
  by (simp add: lit_2_80_def lit_3_20_def lit_3_50_def lit_3_80_def)

text \<open>
  C1. The success template is a function of the context alone, defined on every context,
  and is chosen by the first branch that matches: a closed time window; else a band C, D
  or E, split on \<^verbatim>\<open>cc_transfer\<close> being among the systems considered; else \<^verbatim>\<open>uc\<close> among the
  systems, split on UCM among the targeted campuses, then on any of UCR, UCSC, UCSD, UCLA
  among them, then on an early time window; else \<^verbatim>\<open>csu\<close>.
\<close>

theorem success_template_priority:
  "chooseSuccessTemplate c =
     (if time_window (derived c) = ''closed'' then ''closed_window''
      else if gpa_band (derived c) \<in> {''C'', ''D'', ''E''} then
        (if ''cc_transfer'' \<in> set (or_empty (systems_considered (input c))) then ''cc_to_uc''
         else ''cc_transfer_refused'')
      else if ''uc'' \<in> set (or_empty (systems_considered (input c))) then
        (if ''UCM'' \<in> set (or_empty (campus_targets_uc (input c))) then ''access_uc''
         else if {''UCR'', ''UCSC'', ''UCSD'', ''UCLA''} \<inter> set (or_empty (campus_targets_uc (input c))) \<noteq> {}
           then ''floor_guarded_uc''
         else if time_window (derived c) = ''early'' then ''mid_uc_early''
         else ''mid_uc_late'')
      else ''csu'')"
  by (simp add: chooseSuccessTemplate_def Let_def)

text \<open>
  An input for the examples: grade 11, an average of 3.9, \<^verbatim>\<open>uc\<close> considered, UCSD targeted.
\<close>

definition sample_input :: input where
  "sample_input =
     \<lparr>grade_level = Fin 11, grade_month_bucket = None,
      gpa_unweighted = Fin (8782019273372467 / 2251799813685248),
      gpa_trend = ''flat'', grade_concentration = ''mixed'', major_bucket = ''stem'',
      systems_considered = Some [''uc''],
      willing_prioritize_gpa_over_rigor = False, willing_summer_academics = False,
      willing_reduce_ecs = False, open_to_cc_pathways = False, summer_travel_weeks = None,
      campus_targets_uc = Some [''UCSD''], academic_anomaly_timing = None,
      ec_leadership_recognition = None, senior_course_signals = []\<rparr>"

theorem success_template_priority_witness:
  "chooseSuccessTemplate
     \<lparr>input = sample_input\<lparr>systems_considered := Some [''cc_transfer'', ''uc'']\<rparr>,
      derived = \<lparr>gpa_band = ''D'', time_window = ''closed''\<rparr>, state = initState\<rparr> = ''closed_window''
   \<and> chooseSuccessTemplate
     \<lparr>input = sample_input\<lparr>systems_considered := Some [''cc_transfer'', ''uc'']\<rparr>,
      derived = \<lparr>gpa_band = ''D'', time_window = ''late''\<rparr>, state = initState\<rparr> = ''cc_to_uc''
   \<and> chooseSuccessTemplate
     \<lparr>input = sample_input\<lparr>campus_targets_uc := Some [''UCM'', ''UCLA'']\<rparr>,
      derived = \<lparr>gpa_band = ''A'', time_window = ''late''\<rparr>, state = initState\<rparr> = ''access_uc''
   \<and> chooseSuccessTemplate
     \<lparr>input = sample_input,
      derived = \<lparr>gpa_band = ''A'', time_window = ''late''\<rparr>, state = initState\<rparr> = ''floor_guarded_uc''"
  using success_template_priority [of "\<lparr>input = sample_input\<lparr>systems_considered := Some [''cc_transfer'', ''uc'']\<rparr>,
      derived = \<lparr>gpa_band = ''D'', time_window = ''closed''\<rparr>, state = initState\<rparr>"]
    success_template_priority [of "\<lparr>input = sample_input\<lparr>systems_considered := Some [''cc_transfer'', ''uc'']\<rparr>,
      derived = \<lparr>gpa_band = ''D'', time_window = ''late''\<rparr>, state = initState\<rparr>"]
    success_template_priority [of "\<lparr>input = sample_input\<lparr>campus_targets_uc := Some [''UCM'', ''UCLA'']\<rparr>,
      derived = \<lparr>gpa_band = ''A'', time_window = ''late''\<rparr>, state = initState\<rparr>"]
    success_template_priority [of "\<lparr>input = sample_input,
      derived = \<lparr>gpa_band = ''A'', time_window = ''late''\<rparr>, state = initState\<rparr>"]
  by (simp add: sample_input_def or_empty_def)

section \<open>A small ruleset for the examples\<close>

text \<open>
  A runtime for examples in which no number is converted to or from text, and a ruleset
  of three rules: \<open>rule_a\<close> always fires, \<open>rule_b\<close> of the same stage reads a flag that
  \<open>rule_a\<close> sets, and \<open>rule_c\<close>, listed first but of the later stage, reads a list that
  \<open>rule_b\<close> extends.
\<close>

definition inert_runtime :: runtime where
  "inert_runtime = \<lparr>number_to_string = (\<lambda>_. ''NaN''), string_to_number = (\<lambda>_. NaN)\<rparr>"

definition rule_a :: rule where
  "rule_a = \<lparr>stage = ''s1'', rule_when = None,
     rule_then = Some \<lparr>add_locked = Some [''A'', ''B'', ''A''], add_viable = None,
       add_actions = None, add_stop = None, add_notes = None,
       set_suppress = Some [(''ap'', JBool True), (''cc'', JBool True)]\<rparr>\<rparr>"

definition rule_b :: rule where
  "rule_b = \<lparr>stage = ''s1'',
     rule_when = Some (JObj [(''field'', JStr ''state.suppress.ap''), (''eq'', JBool True)]),
     rule_then = Some \<lparr>add_locked = Some [''C'', ''B''], add_viable = None,
       add_actions = None, add_stop = None, add_notes = None,
       set_suppress = Some [(''cc'', JBool False)]\<rparr>\<rparr>"

definition rule_c :: rule where
  "rule_c = \<lparr>stage = ''s2'',
     rule_when = Some (JObj [(''field'', JStr ''state.outputs.locked''), (''contains'', JStr ''C'')]),
     rule_then = Some \<lparr>add_locked = None, add_viable = Some [''V''],
       add_actions = None, add_stop = None, add_notes = None,
       set_suppress = None\<rparr>\<rparr>"

definition demo_ruleset :: ruleset where
  "demo_ruleset = \<lparr>engine_version = None, execution_order = Some [''s1'', ''s2''],
     rules = [rule_c, rule_a, rule_b],
     output_constraints = \<lparr>max_locked = None, max_viable = None, max_actions = None, max_stop = None\<rparr>,
     success_templates = None\<rparr>"

text \<open>The state the three rules leave.\<close>

definition demo_state :: state where
  "demo_state = \<lparr>outputs = \<lparr>locked = [''A'', ''B'', ''C''], viable = [''V''], actions = [], stop = [], notes = []\<rparr>,
      suppress = [(''cc'', True), (''ap'', True), (''middle_college'', False),
                  (''testing'', False), (''internships'', False),
                  (''extracurriculars'', False), (''essays'', False)]\<rparr>"

lemma demo_run:
  "runEngine inert_runtime demo_ruleset sample_input =
     Inr \<lparr>input = sample_input, derived = \<lparr>gpa_band = ''A'', time_window = ''late''\<rparr>,
          state = demo_state\<rparr>"
  by (simp add: runEngine_def demo_ruleset_def rule_a_def rule_b_def rule_c_def fire_def
     evalCond.simps(2) evalLeaf_def getField_def js_String_opt_def ctx_json_def state_json_def
     str_list_json_def initState_def applyThen_def then_or_empty_def uniqPush_opt_def or_empty_def
     applySuppress_def op_contains_def computeGpaBand_def computeTimeWindow_def sample_input_def
     lit_3_80_def num_eq_def demo_state_def Let_def)


section \<open>Properties of the rule engine\<close>

text \<open>
  The order in which the run visits rules, in the words of the specification: stage by
  stage in the order of \<^verbatim>\<open>execution_order\<close>, and within a stage the rules with that stage
  tag in the order of \<^verbatim>\<open>rules\<close>.
\<close>

definition visit_order :: "ruleset \<Rightarrow> rule list" where
  "visit_order RULESET =
     concat (map (\<lambda>s. filter (\<lambda>r. stage r = s) (rules RULESET)) (or_empty (execution_order RULESET)))"

lemma run_rules_append:
  "run_rules rt i d st (xs @ ys) =
     (case run_rules rt i d st xs of Inl e \<Rightarrow> Inl e | Inr st' \<Rightarrow> run_rules rt i d st' ys)"
  by (induction xs arbitrary: st) (auto split: sum.splits)

lemma run_stages_flat:
  "run_stages rt all_rules i d st stages =
     run_rules rt i d st (concat (map (\<lambda>s. filter (\<lambda>r. stage r = s) all_rules) stages))"
  by (induction stages arbitrary: st) (auto simp: run_rules_append split: sum.splits)

text \<open>
  C2. A run is one pass over the rules in visiting order, started in the initial state.
  Each rule's condition is evaluated on the context holding the state as the rules before
  it left it, and when it holds the effect is applied before the next rule is looked at;
  whether a rule fires depends on its condition alone. (An exception raised by a condition
  ends the run, as nothing catches it.)
\<close>

theorem run_visits_rules_in_stage_order:
  "runEngine rt RULESET i =
     (let d = \<lparr>gpa_band = computeGpaBand (gpa_unweighted i),
               time_window = computeTimeWindow (grade_level i) (grade_month_bucket i)\<rparr>
      in case run_rules rt i d initState (visit_order RULESET) of
           Inl e \<Rightarrow> Inl e
         | Inr st \<Rightarrow> Inr \<lparr>input = i, derived = d, state = st\<rparr>)
   \<and> run_rules rt i d st [] = Inr st
   \<and> run_rules rt i d st (r # rs) =
       (case evalCond rt (ctx_json i d st) (rule_when r) of
          Inl e \<Rightarrow> Inl e
        | Inr b \<Rightarrow> run_rules rt i d (if b then applyThen st r else st) rs)"
proof -
  have flat: "runEngine rt RULESET i =
     (let d = \<lparr>gpa_band = computeGpaBand (gpa_unweighted i),
               time_window = computeTimeWindow (grade_level i) (grade_month_bucket i)\<rparr>
      in case run_rules rt i d initState (visit_order RULESET) of
           Inl e \<Rightarrow> Inl e
         | Inr st \<Rightarrow> Inr \<lparr>input = i, derived = d, state = st\<rparr>)"
    by (simp add: runEngine_def visit_order_def run_stages_flat Let_def)
  have step: "run_rules rt i d st (r # rs) =
       (case evalCond rt (ctx_json i d st) (rule_when r) of
          Inl e \<Rightarrow> Inl e
        | Inr b \<Rightarrow> run_rules rt i d (if b then applyThen st r else st) rs)"
    by (simp add: fire_def split: sum.splits)
  show ?thesis
    by (intro conjI flat step run_rules.simps(1))
qed

text \<open>
  On the example ruleset: \<open>rule_b\<close> does not hold in the initial state and holds once
  \<open>rule_a\<close> of the same stage has fired.
\<close>

theorem run_visits_rules_in_stage_order_witness:
  "visit_order demo_ruleset = [rule_a, rule_b, rule_c]
   \<and> run_rules inert_runtime sample_input \<lparr>gpa_band = ''A'', time_window = ''late''\<rparr> initState
        [rule_a, rule_b, rule_c] = Inr demo_state
   \<and> evalCond inert_runtime
        (ctx_json sample_input \<lparr>gpa_band = ''A'', time_window = ''late''\<rparr> initState)
        (rule_when rule_b) = Inr False
   \<and> evalCond inert_runtime
        (ctx_json sample_input \<lparr>gpa_band = ''A'', time_window = ''late''\<rparr> (applyThen initState rule_a))
        (rule_when rule_b) = Inr True"
proof -
  have order: "visit_order demo_ruleset = [rule_a, rule_b, rule_c]"
    by (simp add: visit_order_def demo_ruleset_def or_empty_def rule_a_def rule_b_def rule_c_def)
  have band: "computeGpaBand (gpa_unweighted sample_input) = ''A''"
    "computeTimeWindow (grade_level sample_input) (grade_month_bucket sample_input) = ''late''"
    by (simp_all add: computeGpaBand_def computeTimeWindow_def sample_input_def lit_3_80_def num_eq_def)
  have run: "run_rules inert_runtime sample_input \<lparr>gpa_band = ''A'', time_window = ''late''\<rparr> initState
        [rule_a, rule_b, rule_c] = Inr demo_state"
  proof -
    define R where "R = run_rules inert_runtime sample_input
        \<lparr>gpa_band = ''A'', time_window = ''late''\<rparr> initState [rule_a, rule_b, rule_c]"
    have "runEngine inert_runtime demo_ruleset sample_input =
        (case R of Inl e \<Rightarrow> Inl e
         | Inr st \<Rightarrow> Inr \<lparr>input = sample_input,
             derived = \<lparr>gpa_band = ''A'', time_window = ''late''\<rparr>, state = st\<rparr>)"
      using run_visits_rules_in_stage_order [of inert_runtime demo_ruleset sample_input, THEN conjunct1]
      by (simp only: order band Let_def R_def)
    then have "R = Inr demo_state"
      using demo_run by (cases R) simp_all
    then show ?thesis by (simp only: R_def)
  qed
  have before: "evalCond inert_runtime
        (ctx_json sample_input \<lparr>gpa_band = ''A'', time_window = ''late''\<rparr> initState)
        (rule_when rule_b) = Inr False"
    by (simp add: rule_b_def evalCond.simps(2) evalLeaf_def getField_def js_String_opt_def
        ctx_json_def state_json_def initState_def)
  have after: "evalCond inert_runtime
        (ctx_json sample_input \<lparr>gpa_band = ''A'', time_window = ''late''\<rparr> (applyThen initState rule_a))
        (rule_when rule_b) = Inr True"
    by (simp add: rule_a_def rule_b_def evalCond.simps(2) evalLeaf_def getField_def js_String_opt_def
        ctx_json_def state_json_def initState_def applyThen_def then_or_empty_def applySuppress_def
        uniqPush_opt_def or_empty_def Let_def)
  show ?thesis
    by (intro conjI order run before after)
qed

subsection \<open>Accumulators\<close>

text \<open>
  The specification's ``first occurrence wins position'': each value once, at the place
  of its first occurrence.
\<close>

fun first_occ :: "'a list \<Rightarrow> 'a list" where
  "first_occ [] = []"
| "first_occ (x # xs) = x # first_occ (filter (\<lambda>y. y \<noteq> x) xs)"

lemma set_first_occ: "set (first_occ xs) = set xs"
  by (induction xs rule: first_occ.induct) auto

lemma distinct_first_occ: "distinct (first_occ xs)"
  by (induction xs rule: first_occ.induct) (auto simp: set_first_occ)

lemma uniqPush_append: "uniqPush arr (xs @ ys) = uniqPush (uniqPush arr xs) ys"
  by (induction xs arbitrary: arr) auto

lemma uniqPush_first_occ:
  "uniqPush arr items = arr @ first_occ (filter (\<lambda>x. x \<notin> set arr) items)"
proof (induction items arbitrary: arr)
  case Nil
  then show ?case by simp
next
  case (Cons it items)
  show ?case
  proof (cases "it \<in> set arr")
    case True
    then show ?thesis using Cons.IH[of arr] by simp
  next
    case False
    have "filter (\<lambda>x. x \<notin> set (arr @ [it])) items
        = filter (\<lambda>y. y \<noteq> it) (filter (\<lambda>x. x \<notin> set arr) items)"
      by (auto intro: filter_cong)
    then show ?thesis using False Cons.IH[of "arr @ [it]"] by simp
  qed
qed

text \<open>The items a rule adds to one category, named by the selector of the effect.\<close>

definition pushed :: "(effect \<Rightarrow> string list option) \<Rightarrow> rule \<Rightarrow> string list" where
  "pushed sel r = or_empty (sel (then_or_empty r))"

lemma outputs_applySuppress: "outputs (applySuppress st p) = outputs st"
  by (simp add: applySuppress_def split: option.splits)

lemma outputs_applyThen:
  "locked (outputs (applyThen st r)) = uniqPush (locked (outputs st)) (pushed add_locked r)"
  "viable (outputs (applyThen st r)) = uniqPush (viable (outputs st)) (pushed add_viable r)"
  "actions (outputs (applyThen st r)) = uniqPush (actions (outputs st)) (pushed add_actions r)"
  "stop (outputs (applyThen st r)) = uniqPush (stop (outputs st)) (pushed add_stop r)"
  "notes (outputs (applyThen st r)) = uniqPush (notes (outputs st)) (pushed add_notes r)"
  by (simp_all add: applyThen_def Let_def outputs_applySuppress uniqPush_opt_def pushed_def
      or_empty_def)

lemma outputs_foldl_applyThen:
  "locked (outputs (foldl applyThen st rs))
     = uniqPush (locked (outputs st)) (concat (map (pushed add_locked) rs))"
  "viable (outputs (foldl applyThen st rs))
     = uniqPush (viable (outputs st)) (concat (map (pushed add_viable) rs))"
  "actions (outputs (foldl applyThen st rs))
     = uniqPush (actions (outputs st)) (concat (map (pushed add_actions) rs))"
  "stop (outputs (foldl applyThen st rs))
     = uniqPush (stop (outputs st)) (concat (map (pushed add_stop) rs))"
  "notes (outputs (foldl applyThen st rs))
     = uniqPush (notes (outputs st)) (concat (map (pushed add_notes) rs))"
  by (induction rs arbitrary: st) (simp_all add: outputs_applyThen uniqPush_append)

lemma uniqPush_Nil: "uniqPush [] items = first_occ items"
  using uniqPush_first_occ[of "[]" items] by simp

lemma distinct_uniqPush: "distinct arr \<Longrightarrow> distinct (uniqPush arr items)"
  by (induction items arbitrary: arr) auto

definition outputs_distinct :: "state \<Rightarrow> bool" where
  "outputs_distinct st =
     (distinct (locked (outputs st)) \<and> distinct (viable (outputs st))
      \<and> distinct (actions (outputs st)) \<and> distinct (stop (outputs st))
      \<and> distinct (notes (outputs st)))"

lemma outputs_distinct_applyThen: "outputs_distinct st \<Longrightarrow> outputs_distinct (applyThen st r)"
  by (simp add: outputs_distinct_def outputs_applyThen distinct_uniqPush)

lemma outputs_distinct_fire:
  "outputs_distinct st \<Longrightarrow> fire rt i d st r = Inr st' \<Longrightarrow> outputs_distinct st'"
  by (auto simp: fire_def outputs_distinct_applyThen split: sum.splits if_splits)

lemma outputs_distinct_run_rules:
  "outputs_distinct st \<Longrightarrow> run_rules rt i d st rs = Inr st' \<Longrightarrow> outputs_distinct st'"
proof (induction rs arbitrary: st)
  case Nil
  then show ?case by simp
next
  case (Cons r rs)
  then show ?case
    by (auto split: sum.splits dest: outputs_distinct_fire)
qed

lemma outputs_distinct_run_stages:
  "outputs_distinct st \<Longrightarrow> run_stages rt all_rules i d st stages = Inr st' \<Longrightarrow> outputs_distinct st'"
proof (induction stages arbitrary: st)
  case Nil
  then show ?case by simp
next
  case (Cons s stages)
  then show ?case
    by (auto split: sum.splits dest: outputs_distinct_run_rules)
qed

lemma outputs_distinct_init: "outputs_distinct initState"
  by (simp add: outputs_distinct_def initState_def)

lemma runEngine_state:
  "runEngine rt RULESET i = Inr c \<Longrightarrow>
   run_stages rt (rules RULESET) i (derived c) initState (or_empty (execution_order RULESET))
     = Inr (state c)"
  by (auto simp: runEngine_def Let_def or_empty_def split: sum.splits)

text \<open>
  C4. After any sequence of effects applied to the initial state, each of the five
  categories holds the items pushed to it, each once and in the order of first occurrence;
  \<^verbatim>\<open>uniqPush\<close> keeps what the array holds, in place, and appends the new items; the state
  a run returns has no duplicate in any category; and pushing A, B, A and then C, B
  yields A, B, C.
\<close>

theorem accumulators_duplicate_free:
  "locked (outputs (foldl applyThen initState rs)) = first_occ (concat (map (pushed add_locked) rs))
   \<and> viable (outputs (foldl applyThen initState rs)) = first_occ (concat (map (pushed add_viable) rs))
   \<and> actions (outputs (foldl applyThen initState rs)) = first_occ (concat (map (pushed add_actions) rs))
   \<and> stop (outputs (foldl applyThen initState rs)) = first_occ (concat (map (pushed add_stop) rs))
   \<and> notes (outputs (foldl applyThen initState rs)) = first_occ (concat (map (pushed add_notes) rs))
   \<and> distinct (first_occ xs) \<and> set (first_occ xs) = set xs
   \<and> uniqPush arr items = arr @ first_occ (filter (\<lambda>x. x \<notin> set arr) items)
   \<and> (distinct arr \<longrightarrow> distinct (uniqPush arr items))
   \<and> (runEngine rt RULESET i = Inr c \<longrightarrow> outputs_distinct (state c))
   \<and> uniqPush (uniqPush [] [''A'', ''B'', ''A'']) [''C'', ''B''] = [''A'', ''B'', ''C'']"
proof -
  have init: "locked (outputs initState) = []" "viable (outputs initState) = []"
    "actions (outputs initState) = []" "stop (outputs initState) = []"
    "notes (outputs initState) = []"
    by (simp_all add: initState_def)
  have acc: "locked (outputs (foldl applyThen initState rs)) = first_occ (concat (map (pushed add_locked) rs))"
    "viable (outputs (foldl applyThen initState rs)) = first_occ (concat (map (pushed add_viable) rs))"
    "actions (outputs (foldl applyThen initState rs)) = first_occ (concat (map (pushed add_actions) rs))"
    "stop (outputs (foldl applyThen initState rs)) = first_occ (concat (map (pushed add_stop) rs))"
    "notes (outputs (foldl applyThen initState rs)) = first_occ (concat (map (pushed add_notes) rs))"
    by (simp_all add: outputs_foldl_applyThen init uniqPush_Nil)
  have eng: "runEngine rt RULESET i = Inr c \<longrightarrow> outputs_distinct (state c)"
    using runEngine_state outputs_distinct_run_stages outputs_distinct_init by blast
  have ex: "uniqPush (uniqPush [] [''A'', ''B'', ''A'']) [''C'', ''B''] = [''A'', ''B'', ''C'']"
    by simp
  have d: "distinct arr \<longrightarrow> distinct (uniqPush arr items)"
    by (simp add: distinct_uniqPush)
  show ?thesis
    by (intro conjI acc ex distinct_first_occ set_first_occ uniqPush_first_occ d eng)
qed

theorem accumulators_duplicate_free_witness:
  "(case runEngine inert_runtime demo_ruleset sample_input of
      Inl e \<Rightarrow> False
    | Inr c \<Rightarrow> outputs_distinct (state c) \<and> locked (outputs (state c)) = [''A'', ''B'', ''C''])
   \<and> distinct [''A'', ''B''] \<and> distinct (uniqPush [''A'', ''B''] [''C'', ''B''])
   \<and> locked (outputs (foldl applyThen initState [rule_a, rule_b])) = [''A'', ''B'', ''C'']"
  using accumulators_duplicate_free [of "[rule_a, rule_b]" "[]" "[''A'', ''B'']" "[''C'', ''B'']"
      inert_runtime demo_ruleset sample_input
      "\<lparr>input = sample_input, derived = \<lparr>gpa_band = ''A'', time_window = ''late''\<rparr>,
        state = demo_state\<rparr>"]
    demo_run
  by (simp add: demo_state_def pushed_def then_or_empty_def or_empty_def rule_a_def rule_b_def)

subsection \<open>Suppression flags\<close>

lemma map_of_set_true:
  "map_of (set_true k flags) k' = (if k' = k then Some True else map_of flags k')"
  by (induction flags) auto

lemma suppress_entries_mono:
  "map_of flags k = Some True \<Longrightarrow> map_of (suppress_entries flags es) k = Some True"
  by (induction es arbitrary: flags) (auto simp: map_of_set_true)

lemma suppress_entries_filter:
  "suppress_entries flags (filter (\<lambda>(k, v). v = JBool True) es) = suppress_entries flags es"
  by (induction es arbitrary: flags) auto

lemma suppress_applyThen:
  "suppress (applyThen st r) =
     (case set_suppress (then_or_empty r) of None \<Rightarrow> suppress st
      | Some es \<Rightarrow> suppress_entries (suppress st) es)"
  by (simp add: applyThen_def Let_def applySuppress_def split: option.splits)

lemma applySuppress_mono:
  "map_of (suppress st) k = Some True \<Longrightarrow> map_of (suppress (applySuppress st p)) k = Some True"
  by (simp add: applySuppress_def suppress_entries_mono split: option.splits)

lemma applyThen_mono:
  "map_of (suppress st) k = Some True \<Longrightarrow> map_of (suppress (applyThen st r)) k = Some True"
  by (simp add: suppress_applyThen suppress_entries_mono split: option.splits)

lemma foldl_applyThen_mono:
  "map_of (suppress st) k = Some True \<Longrightarrow> map_of (suppress (foldl applyThen st rs)) k = Some True"
  by (induction rs arbitrary: st) (simp_all add: applyThen_mono)

lemma fire_mono:
  "map_of (suppress st) k = Some True \<Longrightarrow> fire rt i d st r = Inr st' \<Longrightarrow>
   map_of (suppress st') k = Some True"
  by (auto simp: fire_def applyThen_mono split: sum.splits if_splits)

lemma run_rules_mono:
  "map_of (suppress st) k = Some True \<Longrightarrow> run_rules rt i d st rs = Inr st' \<Longrightarrow>
   map_of (suppress st') k = Some True"
proof (induction rs arbitrary: st)
  case Nil
  then show ?case by simp
next
  case (Cons r rs)
  then show ?case
    by (auto split: sum.splits dest: fire_mono)
qed

lemma run_stages_mono:
  "map_of (suppress st) k = Some True \<Longrightarrow> run_stages rt all_rules i d st stages = Inr st' \<Longrightarrow>
   map_of (suppress st') k = Some True"
proof (induction stages arbitrary: st)
  case Nil
  then show ?case by simp
next
  case (Cons s stages)
  then show ?case
    by (auto split: sum.splits dest: run_rules_mono)
qed

text \<open>
  C3. The seven flags start false (and no other flag exists at the start).
  \<^verbatim>\<open>applySuppress\<close> applies the entries of a patch whose value is \<^verbatim>\<open>true\<close> and no other, so
  a patch that sets a flag to \<^verbatim>\<open>false\<close> changes nothing; a flag that is true stays true
  under a patch, under the effect of a rule, under any sequence of effects and to the end
  of a run.
\<close>

theorem suppression_monotone:
  "map_of (suppress initState) k =
     (if k \<in> {''cc'', ''ap'', ''middle_college'', ''testing'', ''internships'',
               ''extracurriculars'', ''essays''} then Some False else None)
   \<and> applySuppress st (Some es) = applySuppress st (Some (filter (\<lambda>(k, v). v = JBool True) es))
   \<and> applySuppress st (Some [(k, JBool False)]) = st
   \<and> (map_of (suppress st) k = Some True \<longrightarrow> map_of (suppress (applySuppress st p)) k = Some True)
   \<and> (map_of (suppress st) k = Some True \<longrightarrow> map_of (suppress (applyThen st r)) k = Some True)
   \<and> (map_of (suppress st) k = Some True \<longrightarrow>
        map_of (suppress (foldl applyThen st rs)) k = Some True)
   \<and> (map_of (suppress st) k = Some True \<and> run_stages rt all_rules i d st stages = Inr st' \<longrightarrow>
        map_of (suppress st') k = Some True)"
proof -
  have init: "map_of (suppress initState) k =
     (if k \<in> {''cc'', ''ap'', ''middle_college'', ''testing'', ''internships'',
               ''extracurriculars'', ''essays''} then Some False else None)"
    by (simp add: initState_def)
  have only_true:
    "applySuppress st (Some es) = applySuppress st (Some (filter (\<lambda>(k, v). v = JBool True) es))"
    by (simp add: applySuppress_def suppress_entries_filter)
  have false_patch: "applySuppress st (Some [(k, JBool False)]) = st"
    by (simp add: applySuppress_def)
  have m1: "map_of (suppress st) k = Some True \<longrightarrow> map_of (suppress (applySuppress st p)) k = Some True"
    by (simp add: applySuppress_mono)
  have m2: "map_of (suppress st) k = Some True \<longrightarrow> map_of (suppress (applyThen st r)) k = Some True"
    by (simp add: applyThen_mono)
  have m3: "map_of (suppress st) k = Some True \<longrightarrow>
        map_of (suppress (foldl applyThen st rs)) k = Some True"
    by (simp add: foldl_applyThen_mono)
  have m4: "map_of (suppress st) k = Some True \<and> run_stages rt all_rules i d st stages = Inr st' \<longrightarrow>
        map_of (suppress st') k = Some True"
    using run_stages_mono by blast
  show ?thesis
    by (intro conjI init only_true false_patch m1 m2 m3 m4)
qed

lemma demo_rerun:
  "run_stages inert_runtime [rule_b] sample_input \<lparr>gpa_band = ''A'', time_window = ''late''\<rparr>
     demo_state [''s1''] = Inr demo_state"
  by (simp add: rule_b_def fire_def evalCond.simps(2) evalLeaf_def getField_def js_String_opt_def
      ctx_json_def state_json_def demo_state_def applyThen_def then_or_empty_def applySuppress_def
      uniqPush_opt_def or_empty_def Let_def)

theorem suppression_monotone_witness:
  "map_of (suppress demo_state) ''cc'' = Some True
   \<and> applySuppress demo_state (Some [(''cc'', JBool False)]) = demo_state
   \<and> map_of (suppress (applyThen demo_state rule_b)) ''cc'' = Some True
   \<and> map_of (suppress (foldl applyThen demo_state [rule_b, rule_c])) ''cc'' = Some True
   \<and> run_stages inert_runtime [rule_b] sample_input \<lparr>gpa_band = ''A'', time_window = ''late''\<rparr>
        demo_state [''s1''] = Inr demo_state"
  using suppression_monotone [of "''cc''" demo_state "[]" "Some [(''cc'', JBool False)]" rule_b
      "[rule_b, rule_c]" inert_runtime "[rule_b]" sample_input
      "\<lparr>gpa_band = ''A'', time_window = ''late''\<rparr>" "[''s1'']" demo_state]
    demo_rerun
  by (simp add: demo_state_def)

section \<open>Properties of condition evaluation\<close>










lemma map_of_present: "map_of kvs k = Some v \<Longrightarrow> k \<in> set (map fst kvs)"
  by (metis map_of_eq_None_iff option.distinct(1) set_map)



lemma evalLeaf_obj:
  "evalLeaf rt ctx (JObj kvs) =
     Inr (let val = getField rt ctx (map_of kvs ''field'') in
          case map_of kvs ''exists'' of
            Some e \<Rightarrow> (if truthy (Some e) then op_exists val else \<not> op_exists val)
          | None \<Rightarrow>
          (case map_of kvs ''eq'' of
            Some x \<Rightarrow> strict_eq val x
          | None \<Rightarrow>
          (case map_of kvs ''in'' of
            Some x \<Rightarrow> op_in val (Some x)
          | None \<Rightarrow>
          (case map_of kvs ''gte'' of
            Some g \<Rightarrow> op_gte rt val (Some g)
          | None \<Rightarrow>
          (case map_of kvs ''contains'' of
            Some x \<Rightarrow> op_contains val (Some x)
          | None \<Rightarrow> False)))))"
proof -
  have key: "(k \<in> set (map fst kvs)) = (map_of kvs k \<noteq> None)" for k
    by (simp add: map_of_eq_None_iff)
  show ?thesis
    unfolding evalLeaf_def Let_def js_in.simps getProp.simps key
    by (simp split: option.splits)
qed

lemma evalCond_obj_leaf:
  "\<not> truthy (map_of kvs ''all'') \<Longrightarrow> \<not> truthy (map_of kvs ''any'') \<Longrightarrow>
   evalCond rt ctx (Some (JObj kvs)) = evalLeaf rt ctx (JObj kvs)"
  by (simp add: evalCond.simps(2))

text \<open>The context of the sample input before any rule has fired.\<close>

definition sample_ctx :: json where
  "sample_ctx = ctx_json sample_input \<lparr>gpa_band = ''A'', time_window = ''late''\<rparr> initState"


lemma walk_None: "walk None ps = None"
  by (cases ps) auto

lemma walk_Null: "walk (Some JNull) (q # qs) = None"
  by simp

lemma walk_append: "walk cur (ps @ qs) = walk (walk cur ps) qs"
proof (induction ps arbitrary: cur)
  case Nil
  then show ?case by simp
next
  case (Cons p ps)
  show ?case
  proof (cases cur)
    case None
    then show ?thesis by (simp add: walk_None)
  next
    case (Some v)
    then show ?thesis using Cons.IH by (cases v) (simp_all add: walk_None)
  qed
qed

lemma getField_absent:
  assumes "split_dot (js_String_opt rt path) = ps @ q # qs"
    and "walk (Some ctx) ps = None \<or> walk (Some ctx) ps = Some JNull"
  shows "getField rt ctx path = None"
  using assms by (auto simp: getField_def walk_append walk_None)



text \<open>
  C6. When the value reached before the last segment of a path (or before any earlier
  one) is \<^verbatim>\<open>null\<close> or \<^verbatim>\<open>undefined\<close>, \<^verbatim>\<open>getField\<close> returns \<^verbatim>\<open>undefined\<close>. A leaf condition
  whose field is \<^verbatim>\<open>undefined\<close> is false under \<^verbatim>\<open>eq\<close>, \<^verbatim>\<open>in\<close>, \<^verbatim>\<open>gte\<close> and \<^verbatim>\<open>contains\<close>
  (under any keys, as long as \<^verbatim>\<open>exists\<close> is not one), false under \<^verbatim>\<open>exists\<close> with a truthy
  comparand and true under \<^verbatim>\<open>exists\<close> with a falsy one.
\<close>

theorem missing_field_comparisons:
  "(split_dot (js_String_opt rt path) = ps @ q # qs
      \<and> (walk (Some ctx) ps = None \<or> walk (Some ctx) ps = Some JNull)
      \<longrightarrow> getField rt ctx path = None)
   \<and> (getField rt ctx (map_of kvs ''field'') = None
        \<and> \<not> truthy (map_of kvs ''all'') \<and> \<not> truthy (map_of kvs ''any'')
      \<longrightarrow> evalCond rt ctx (Some (JObj kvs)) =
            Inr (case map_of kvs ''exists'' of
                   Some e \<Rightarrow> \<not> truthy (Some e)
                 | None \<Rightarrow> False))"
proof -
  have resolve: "split_dot (js_String_opt rt path) = ps @ q # qs
      \<and> (walk (Some ctx) ps = None \<or> walk (Some ctx) ps = Some JNull)
      \<longrightarrow> getField rt ctx path = None"
    using getField_absent by blast
  have undef: "op_exists None = False" "strict_eq None x = False" "op_in None y = False"
    "op_gte rt None y = False" "op_contains None y = False" for x y
    by (simp_all add: op_exists_def op_in_def op_gte_def op_contains_def js_includes_def
        list_ex_iff split: option.splits json.splits)
  have compare: "evalCond rt ctx (Some (JObj kvs)) =
            Inr (case map_of kvs ''exists'' of
                   Some e \<Rightarrow> \<not> truthy (Some e)
                 | None \<Rightarrow> False)"
    if "getField rt ctx (map_of kvs ''field'') = None"
      "\<not> truthy (map_of kvs ''all'')" "\<not> truthy (map_of kvs ''any'')"
    using that by (simp add: evalCond_obj_leaf evalLeaf_obj undef split: option.splits)
  show ?thesis
    using resolve compare by blast
qed

lemma sample_missing:
  "split_dot (js_String_opt inert_runtime (Some (JStr ''input.summer_travel_weeks.value'')))
     = [''input'', ''summer_travel_weeks''] @ ''value'' # []"
  "walk (Some sample_ctx) [''input'', ''summer_travel_weeks''] = Some JNull"
  "split_dot (js_String_opt inert_runtime (Some (JStr ''input.nothing.value'')))
     = [''input'', ''nothing''] @ ''value'' # []"
  "walk (Some sample_ctx) [''input'', ''nothing''] = None"
  by (simp_all add: js_String_opt_def sample_ctx_def ctx_json_def input_json_def sample_input_def
      opt_field_def)

text \<open>
  Two paths of the sample context: one through \<^verbatim>\<open>summer_travel_weeks\<close>, which is \<^verbatim>\<open>null\<close>,
  and one through a field the input does not have.
\<close>

theorem missing_field_comparisons_witness:
  "getField inert_runtime sample_ctx (Some (JStr ''input.summer_travel_weeks.value'')) = None
   \<and> getField inert_runtime sample_ctx (Some (JStr ''input.nothing.value'')) = None
   \<and> evalCond inert_runtime sample_ctx
        (Some (JObj [(''field'', JStr ''input.nothing.value''), (''eq'', JNull)])) = Inr False
   \<and> evalCond inert_runtime sample_ctx
        (Some (JObj [(''field'', JStr ''input.nothing.value''), (''in'', JArr [JNull])])) = Inr False
   \<and> evalCond inert_runtime sample_ctx
        (Some (JObj [(''field'', JStr ''input.nothing.value''), (''gte'', JNum (Fin 0))])) = Inr False
   \<and> evalCond inert_runtime sample_ctx
        (Some (JObj [(''field'', JStr ''input.nothing.value''), (''contains'', JStr ''x'')])) = Inr False
   \<and> evalCond inert_runtime sample_ctx
        (Some (JObj [(''field'', JStr ''input.nothing.value''), (''exists'', JBool True)])) = Inr False
   \<and> evalCond inert_runtime sample_ctx
        (Some (JObj [(''field'', JStr ''input.nothing.value''), (''exists'', JBool False)])) = Inr True"
proof -
  let ?p1 = "Some (JStr ''input.summer_travel_weeks.value'')"
  let ?p2 = "Some (JStr ''input.nothing.value'')"
  have g1: "getField inert_runtime sample_ctx ?p1 = None"
    using missing_field_comparisons [of inert_runtime ?p1 "[''input'', ''summer_travel_weeks'']"
        "''value''" "[]" sample_ctx "[]", THEN conjunct1] sample_missing(1,2)
    by blast
  have g2: "getField inert_runtime sample_ctx ?p2 = None"
    using missing_field_comparisons [of inert_runtime ?p2 "[''input'', ''nothing'']"
        "''value''" "[]" sample_ctx "[]", THEN conjunct1] sample_missing(3,4)
    by blast
  have c: "evalCond inert_runtime sample_ctx (Some (JObj [(''field'', JStr ''input.nothing.value''), opnd])) =
            Inr (case map_of [(''field'', JStr ''input.nothing.value''), opnd] ''exists'' of
                   Some e \<Rightarrow> \<not> truthy (Some e)
                 | None \<Rightarrow> False)"
    if "fst opnd \<noteq> ''all''" "fst opnd \<noteq> ''any''" "fst opnd \<noteq> ''field''" for opnd
    using missing_field_comparisons [of inert_runtime path ps q qs sample_ctx
        "[(''field'', JStr ''input.nothing.value''), opnd]" for path ps q qs, THEN conjunct2] g2 that
    by (cases opnd) simp
  show ?thesis
    using g1 g2 c [of "(''eq'', JNull)"] c [of "(''in'', JArr [JNull])"]
      c [of "(''gte'', JNum (Fin 0))"] c [of "(''contains'', JStr ''x'')"]
      c [of "(''exists'', JBool True)"] c [of "(''exists'', JBool False)"]
    by simp
qed



section \<open>Properties of output shaping\<close>





lemma to_integer_of_nat: "to_integer (of_nat n) = int n"
  by (simp add: to_integer_def)

lemma enforceConstraints_nat: "enforceConstraints xs (Fin (of_nat n)) = take n xs"
  by (simp add: enforceConstraints_def to_integer_of_nat)

lemma num_or_cases:
  "num_or None d = d"
  "num_or (Some (Fin 0)) d = d"
  "0 < n \<Longrightarrow> num_or (Some (Fin (of_nat n))) d = Fin (of_nat n)"
  by (simp_all add: num_or_def)

lemma enforce_default:
  "enforceConstraints xs (Fin 5) = take 5 xs"
  "enforceConstraints xs (Fin 6) = take 6 xs"
  "enforceConstraints xs (Fin 7) = take 7 xs"
  "enforceConstraints xs (Fin 8) = take 8 xs"
  using enforceConstraints_nat [of xs 5] enforceConstraints_nat [of xs 6]
    enforceConstraints_nat [of xs 7] enforceConstraints_nat [of xs 8]
  by simp_all

lemma renderOutput_lists:
  "locked_list (renderOutput RULESET c) =
     enforceConstraints (locked (outputs (state c)))
       (num_or (max_locked (output_constraints RULESET)) (Fin 7))"
  "viable_list (renderOutput RULESET c) =
     enforceConstraints (viable (outputs (state c)))
       (num_or (max_viable (output_constraints RULESET)) (Fin 6))"
  "actions_list (renderOutput RULESET c) =
     enforceConstraints (filter (filterSuppressed (suppressedKeys (state c))) (actions (outputs (state c))))
       (num_or (max_actions (output_constraints RULESET)) (Fin 5))"
  "stop_list (renderOutput RULESET c) = stop (outputs (state c))"
  "notes_list (renderOutput RULESET c) =
     enforceConstraints (array_from_set (notes (outputs (state c)))) (Fin 8)"
  by (simp_all add: renderOutput_def Let_def)












text \<open>
  A state for the examples: ten locked items, seven viable ones, five actions of which
  two mention AP (one of them only inside the word ``apply''), six stop items, nine notes,
  and the flag \<^verbatim>\<open>ap\<close> set. \<open>constraints l a\<close> is a ruleset with the given \<^verbatim>\<open>max_locked\<close>
  and \<^verbatim>\<open>max_actions\<close> and no other entry.
\<close>

definition shaping_state :: state where
  "shaping_state =
     \<lparr>outputs =
        \<lparr>locked = [''L1'', ''L2'', ''L3'', ''L4'', ''L5'', ''L6'', ''L7'', ''L8'', ''L9'', ''L10''],
         viable = [''V1'', ''V2'', ''V3'', ''V4'', ''V5'', ''V6'', ''V7''],
         actions = [''Consider AP coursework for rigor'', ''Apply early'', ''Visit campuses'',
                    ''Meet your counselor'', ''Plan the summer''],
         stop = [''S1'', ''S2'', ''S3'', ''S4'', ''S5'', ''S6''],
         notes = [''N1'', ''N2'', ''N3'', ''N4'', ''N5'', ''N6'', ''N7'', ''N8'', ''N9'']\<rparr>,
      suppress = [(''cc'', False), (''ap'', True), (''middle_college'', False),
                  (''testing'', False), (''internships'', False),
                  (''extracurriculars'', False), (''essays'', False)]\<rparr>"

definition shaping_ctx :: ctx where
  "shaping_ctx = \<lparr>input = sample_input, derived = \<lparr>gpa_band = ''A'', time_window = ''late''\<rparr>,
                   state = shaping_state\<rparr>"

definition constraints :: "jnum option \<Rightarrow> jnum option \<Rightarrow> ruleset" where
  "constraints l a =
     \<lparr>engine_version = None, execution_order = None, rules = [],
      output_constraints = \<lparr>max_locked = l, max_viable = None, max_actions = a, max_stop = None\<rparr>,
      success_templates = None\<rparr>"

lemma shaping_keys: "suppressedKeys shaping_state = [''ap'']"
  by (simp add: suppressedKeys_def shaping_state_def)

lemma shaping_filter:
  "filter (filterSuppressed [''ap'']) (actions (outputs shaping_state))
     = [''Visit campuses'', ''Meet your counselor'', ''Plan the summer'']"
  by (simp add: shaping_state_def filterSuppressed_def toLowerCase_def lower_char_def)

lemma shaping_no_flag:
  "filterSuppressed [] ''Consider AP coursework for rigor''"
  by (simp add: filterSuppressed_def)


lemma array_from_set_fold:
  "fold (\<lambda>x acc. if x \<in> set acc then acc else acc @ [x]) xs acc = uniqPush acc xs"
  by (induction xs arbitrary: acc) auto

lemma array_from_set_first_occ: "array_from_set xs = first_occ xs"
  by (simp add: array_from_set_def array_from_set_fold uniqPush_Nil)

text \<open>
  C9 fails as stated. With \<^verbatim>\<open>max_locked\<close> set to 0 the page shows seven locked items, not
  at most the first zero: \<^verbatim>\<open>c.max_locked || 7\<close> takes 0 for a missing entry. And the six
  stop items are all shown: \<^verbatim>\<open>renderOutput\<close> computes the truncated list \<^verbatim>\<open>stopC\<close> and
  hands the untruncated \<^verbatim>\<open>stop\<close> to \<^verbatim>\<open>renderList\<close>.
\<close>

theorem output_truncation_counterexample:
  "locked_list (renderOutput (constraints (Some (Fin 0)) None) shaping_ctx)
     = [''L1'', ''L2'', ''L3'', ''L4'', ''L5'', ''L6'', ''L7'']
   \<and> stop_list (renderOutput (constraints (Some (Fin 0)) None) shaping_ctx)
     = [''S1'', ''S2'', ''S3'', ''S4'', ''S5'', ''S6'']"
  by (simp add: renderOutput_lists constraints_def shaping_ctx_def shaping_state_def num_or_def
      enforce_default)

text \<open>
  C9, amended. The page shows, in insertion order, the first \<open>n\<close> locked items when
  \<^verbatim>\<open>max_locked\<close> is a positive count \<open>n\<close> and the first seven when the entry is missing or
  zero; likewise the viable items, with six, and the filtered actions, with five; and the
  first eight of the notes without their duplicates. Nothing is said of the stop list.
\<close>

theorem output_truncation:
  "(max_locked (output_constraints RULESET) = None
      \<or> max_locked (output_constraints RULESET) = Some (Fin 0) \<longrightarrow>
      locked_list (renderOutput RULESET c) = take 7 (locked (outputs (state c))))
   \<and> (max_locked (output_constraints RULESET) = Some (Fin (of_nat n)) \<and> 0 < n \<longrightarrow>
      locked_list (renderOutput RULESET c) = take n (locked (outputs (state c))))
   \<and> (max_viable (output_constraints RULESET) = None
      \<or> max_viable (output_constraints RULESET) = Some (Fin 0) \<longrightarrow>
      viable_list (renderOutput RULESET c) = take 6 (viable (outputs (state c))))
   \<and> (max_viable (output_constraints RULESET) = Some (Fin (of_nat n)) \<and> 0 < n \<longrightarrow>
      viable_list (renderOutput RULESET c) = take n (viable (outputs (state c))))
   \<and> (max_actions (output_constraints RULESET) = None
      \<or> max_actions (output_constraints RULESET) = Some (Fin 0) \<longrightarrow>
      actions_list (renderOutput RULESET c) =
        take 5 (filter (filterSuppressed (suppressedKeys (state c))) (actions (outputs (state c)))))
   \<and> (max_actions (output_constraints RULESET) = Some (Fin (of_nat n)) \<and> 0 < n \<longrightarrow>
      actions_list (renderOutput RULESET c) =
        take n (filter (filterSuppressed (suppressedKeys (state c))) (actions (outputs (state c)))))
   \<and> notes_list (renderOutput RULESET c) = take 8 (first_occ (notes (outputs (state c))))"
proof -
  have dflt: "v = None \<or> v = Some (Fin 0) \<Longrightarrow> num_or v d = d" for v d
    by (auto simp: num_or_cases)
  have given: "v = Some (Fin (of_nat n)) \<and> 0 < n \<Longrightarrow> num_or v d = Fin (of_nat n)" for v d
    by (auto simp: num_or_cases)
  have deduped: "notes_list (renderOutput RULESET c) = take 8 (first_occ (notes (outputs (state c))))"
    by (simp add: renderOutput_lists array_from_set_first_occ enforce_default)
  show ?thesis
    by (intro conjI impI deduped)
      (simp_all add: renderOutput_lists dflt given enforce_default enforceConstraints_nat)
qed

theorem output_truncation_witness:
  "locked_list (renderOutput (constraints None None) shaping_ctx)
     = [''L1'', ''L2'', ''L3'', ''L4'', ''L5'', ''L6'', ''L7'']
   \<and> locked_list (renderOutput (constraints (Some (Fin 3)) None) shaping_ctx)
     = [''L1'', ''L2'', ''L3'']
   \<and> viable_list (renderOutput (constraints None None) shaping_ctx)
     = [''V1'', ''V2'', ''V3'', ''V4'', ''V5'', ''V6'']
   \<and> actions_list (renderOutput (constraints None (Some (Fin 1))) shaping_ctx) = [''Visit campuses'']
   \<and> notes_list (renderOutput (constraints None None) shaping_ctx)
     = [''N1'', ''N2'', ''N3'', ''N4'', ''N5'', ''N6'', ''N7'', ''N8'']"
proof -
  note t = output_truncation
  have l7: "locked_list (renderOutput (constraints None None) shaping_ctx)
     = [''L1'', ''L2'', ''L3'', ''L4'', ''L5'', ''L6'', ''L7'']"
    using t [of "constraints None None" shaping_ctx, THEN conjunct1]
    by (simp add: constraints_def shaping_ctx_def shaping_state_def)
  have l3: "locked_list (renderOutput (constraints (Some (Fin 3)) None) shaping_ctx)
     = [''L1'', ''L2'', ''L3'']"
    using t [of "constraints (Some (Fin 3)) None" shaping_ctx 3, THEN conjunct2, THEN conjunct1]
    by (simp add: constraints_def shaping_ctx_def shaping_state_def)
  have v6: "viable_list (renderOutput (constraints None None) shaping_ctx)
     = [''V1'', ''V2'', ''V3'', ''V4'', ''V5'', ''V6'']"
    using t [of "constraints None None" shaping_ctx, THEN conjunct2, THEN conjunct2, THEN conjunct1]
    by (simp add: constraints_def shaping_ctx_def shaping_state_def)
  have a1: "actions_list (renderOutput (constraints None (Some (Fin 1))) shaping_ctx) = [''Visit campuses'']"
    using t [of "constraints None (Some (Fin 1))" shaping_ctx 1, THEN conjunct2, THEN conjunct2,
        THEN conjunct2, THEN conjunct2, THEN conjunct2, THEN conjunct1]
    by (simp add: constraints_def shaping_ctx_def shaping_keys shaping_filter)
  have n8: "notes_list (renderOutput (constraints None None) shaping_ctx)
     = [''N1'', ''N2'', ''N3'', ''N4'', ''N5'', ''N6'', ''N7'', ''N8'']"
    using t [of "constraints None None" shaping_ctx, THEN conjunct2, THEN conjunct2,
        THEN conjunct2, THEN conjunct2, THEN conjunct2, THEN conjunct2]
    by (simp add: constraints_def shaping_ctx_def shaping_state_def)
  show ?thesis
    by (intro conjI l7 l3 v6 a1 n8)
qed

end
